theory Spec2Isabelle
  imports Main
begin

section \<open>JavaScript values used by the progress store and the quiz\<close>

subsection \<open>Objects with string keys\<close>

text \<open>
  The progress map is a plain JavaScript object keyed by hook id. It is kept here as a
  list of key/value pairs in insertion order, which is the order \<^verbatim>\<open>Object.values\<close>
  walks. Reading a key that is not there gives \<^verbatim>\<open>undefined\<close> (\<open>None\<close>); writing a key
  through \<^verbatim>\<open>{...prev, [k]: v}\<close> replaces the value in place when the key exists and
  appends it otherwise.
\<close>

type_synonym 'v js_object = "(string \<times> 'v) list"

fun obj_get :: "'v js_object \<Rightarrow> string \<Rightarrow> 'v option" where
  "obj_get [] k = None"
| "obj_get ((k', v) # rest) k = (if k' = k then Some v else obj_get rest k)"

fun obj_set :: "'v js_object \<Rightarrow> string \<Rightarrow> 'v \<Rightarrow> 'v js_object" where
  "obj_set [] k v = [(k, v)]"
| "obj_set ((k', v') # rest) k v =
     (if k' = k then (k, v) # rest else (k', v') # obj_set rest k v)"

definition Object_values :: "'v js_object \<Rightarrow> 'v list" where
  "Object_values obj = map snd obj"

subsection \<open>Arrays with holes\<close>

text \<open>
  \<^verbatim>\<open>selectedAnswers\<close> is an array that is written by index before it has that many
  elements. JavaScript then extends the array, the skipped positions read as
  \<^verbatim>\<open>undefined\<close>, and so does every index outside the array. A write at a negative index
  sets a property that is no element, so the elements stay as they are.
\<close>

definition js_array_get :: "'a option list \<Rightarrow> int \<Rightarrow> 'a option" where
  "js_array_get xs i = (if 0 \<le> i \<and> i < int (length xs) then xs ! nat i else None)"

definition js_array_set :: "'a option list \<Rightarrow> int \<Rightarrow> 'a \<Rightarrow> 'a option list" where
  "js_array_set xs i v =
     (if i < 0 then xs
      else if i < int (length xs) then xs[nat i := Some v]
      else xs @ replicate (nat i - length xs) None @ [Some v])"

subsection \<open>Numbers: the binary64 arithmetic of the two percentage formulas\<close>

text \<open>
  Both percentages are computed as \<^verbatim>\<open>Math.round((a / b) * 100)\<close> on JavaScript numbers,
  which are IEEE 754 binary64 values: the quotient is rounded to 53 significant bits,
  the product is rounded again, and only then \<^verbatim>\<open>Math.round\<close> is taken. The operands
  here are counts, so only the non-negative values are modelled: \<open>Finite m e\<close> stands for
  \<open>m * 2 ^ e\<close>, next to \<^verbatim>\<open>NaN\<close> (the value of \<^verbatim>\<open>0 / 0\<close>) and \<^verbatim>\<open>Infinity\<close>. The
  exponent range of binary64 is not modelled: a quotient of two counts times 100 stays
  far inside it.
\<close>

datatype number = NaN | Infinity | Finite nat int

text \<open>The number of binary digits of \<open>n\<close>.\<close>

fun bitlen :: "nat \<Rightarrow> nat" where
  "bitlen n = (if n = 0 then 0 else Suc (bitlen (n div 2)))"

declare bitlen.simps [simp del]

text \<open>
  The binary64 value nearest to \<open>(N / D) * 2 ^ e\<close>, ties to the even significand
  (the rounding every arithmetic operation of JavaScript applies). The quotient is
  first scaled by \<open>2 ^ k\<close> so that its integer part has 53 bits; the remainder of the
  division then decides the rounding.
\<close>

definition round_binary64 :: "nat \<Rightarrow> nat \<Rightarrow> int \<Rightarrow> number" where
  "round_binary64 N D e =
     (if N = 0 then Finite 0 0
      else
        let k = 53 + int (bitlen D) - int (bitlen N);
            N1 = (if 0 \<le> k then N * 2 ^ nat k else N);
            D1 = (if 0 \<le> k then D else D * 2 ^ nat (- k));
            big = (2 ^ 53 \<le> N1 div D1);
            D2 = (if big then 2 * D1 else D1);
            k2 = (if big then k - 1 else k);
            m0 = N1 div D2;
            r = N1 mod D2;
            m = (if D2 < 2 * r \<or> (2 * r = D2 \<and> odd m0) then m0 + 1 else m0)
        in Finite m (e - k2))"

text \<open>\<^verbatim>\<open>a / b\<close> for two counts (integers below \<open>2 ^ 53\<close>, which numbers hold exactly).\<close>

definition js_div :: "nat \<Rightarrow> nat \<Rightarrow> number" where
  "js_div a b =
     (if b = 0 then (if a = 0 then NaN else Infinity) else round_binary64 a b 0)"

text \<open>\<^verbatim>\<open>x * n\<close> for a number \<open>x\<close> and an integer literal \<open>n\<close>.\<close>

definition js_mul :: "number \<Rightarrow> nat \<Rightarrow> number" where
  "js_mul x n =
     (case x of
        NaN \<Rightarrow> NaN
      | Infinity \<Rightarrow> (if n = 0 then NaN else Infinity)
      | Finite m e \<Rightarrow> round_binary64 (m * n) 1 e)"

text \<open>
  \<^verbatim>\<open>Math.round(x)\<close>: the integer nearest to \<open>x\<close>, a tie going up; it is exact, and
  \<^verbatim>\<open>NaN\<close> and \<^verbatim>\<open>Infinity\<close> are returned as they are.
\<close>

definition Math_round :: "number \<Rightarrow> number" where
  "Math_round x =
     (case x of
        NaN \<Rightarrow> NaN
      | Infinity \<Rightarrow> Infinity
      | Finite m e \<Rightarrow>
          (if 0 \<le> e then Finite (m * 2 ^ nat e) 0
           else Finite ((2 * m + 2 ^ nat (- e)) div 2 ^ (nat (- e) + 1)) 0))"

text \<open>\<^verbatim>\<open>x >= n\<close> for an integer literal \<open>n\<close>: every comparison with \<^verbatim>\<open>NaN\<close> is false.\<close>

definition number_ge :: "number \<Rightarrow> nat \<Rightarrow> bool" where
  "number_ge x n =
     (case x of
        NaN \<Rightarrow> False
      | Infinity \<Rightarrow> True
      | Finite m e \<Rightarrow> (if 0 \<le> e then n \<le> m * 2 ^ nat e else n * 2 ^ nat (- e) \<le> m))"

section \<open>The learning context (LearningProvider)\<close>

subsection \<open>Data\<close>

text \<open>
  One entry of \<^verbatim>\<open>LearningProgress\<close>. \<^verbatim>\<open>timeSpent\<close> is a JavaScript number holding whole
  seconds; \<^verbatim>\<open>lastVisited\<close> is a \<^verbatim>\<open>Date\<close>, kept as its epoch milliseconds; the field
  \<^verbatim>\<open>notes\<close> is named \<open>notesText\<close>, since \<open>notes\<close> is a keyword of Isabelle.
\<close>

record progress_entry =
  completed :: bool
  timeSpent :: int
  lastVisited :: int
  notesText :: string
  bookmarked :: bool

text \<open>\<^verbatim>\<open>Partial<LearningProgress[string]>\<close>: every field may be left out.\<close>

record progress_updates =
  upd_completed :: "bool option"
  upd_timeSpent :: "int option"
  upd_lastVisited :: "int option"
  upd_notes :: "string option"
  upd_bookmarked :: "bool option"

definition no_updates :: progress_updates where
  "no_updates = \<lparr>upd_completed = None, upd_timeSpent = None, upd_lastVisited = None,
     upd_notes = None, upd_bookmarked = None\<rparr>"

type_synonym learning_progress = "progress_entry js_object"

datatype theme_t = light | dark | auto_theme
datatype difficulty_t = beginner | intermediate | advanced | all_levels

record learning_settings =
  theme :: theme_t
  difficulty :: difficulty_t
  showHints :: bool
  autoSave :: bool
  soundEnabled :: bool

record settings_updates =
  upd_theme :: "theme_t option"
  upd_difficulty :: "difficulty_t option"
  upd_showHints :: "bool option"
  upd_autoSave :: "bool option"
  upd_soundEnabled :: "bool option"

definition no_settings_updates :: settings_updates where
  "no_settings_updates = \<lparr>upd_theme = None, upd_difficulty = None, upd_showHints = None,
     upd_autoSave = None, upd_soundEnabled = None\<rparr>"

definition default_settings :: learning_settings where
  "default_settings = \<lparr>theme = light, difficulty = all_levels, showHints = True,
     autoSave = True, soundEnabled = False\<rparr>"

subsection \<open>updateProgress: the state updater\<close>

text \<open>
  The object literal of \<^verbatim>\<open>updateProgress\<close> lists five defaults, then spreads
  \<^verbatim>\<open>prev[hookId]\<close> and then \<^verbatim>\<open>updates\<close> over them. \<open>now\<close> is what \<^verbatim>\<open>new Date()\<close>
  returns at the call.
\<close>

definition entry_defaults :: "int \<Rightarrow> progress_entry" where
  "entry_defaults now = \<lparr>completed = False, timeSpent = 0, lastVisited = now,
     notesText = [], bookmarked = False\<rparr>"

text \<open>Spreading \<^verbatim>\<open>undefined\<close> adds nothing; spreading an entry overrides all five fields.\<close>

definition spread_entry :: "progress_entry \<Rightarrow> progress_entry option \<Rightarrow> progress_entry" where
  "spread_entry base e = (case e of None \<Rightarrow> base | Some r \<Rightarrow> r)"

definition spread_updates :: "progress_entry \<Rightarrow> progress_updates \<Rightarrow> progress_entry" where
  "spread_updates r u =
     \<lparr>completed = (case upd_completed u of None \<Rightarrow> completed r | Some v \<Rightarrow> v),
      timeSpent = (case upd_timeSpent u of None \<Rightarrow> timeSpent r | Some v \<Rightarrow> v),
      lastVisited = (case upd_lastVisited u of None \<Rightarrow> lastVisited r | Some v \<Rightarrow> v),
      notesText = (case upd_notes u of None \<Rightarrow> notesText r | Some v \<Rightarrow> v),
      bookmarked = (case upd_bookmarked u of None \<Rightarrow> bookmarked r | Some v \<Rightarrow> v)\<rparr>"

text \<open>The function handed to \<^verbatim>\<open>setProgress\<close>: \<^verbatim>\<open>prev => ({...prev, [hookId]: {...}})\<close>.\<close>

definition updateProgress_updater ::
  "string \<Rightarrow> progress_updates \<Rightarrow> int \<Rightarrow> learning_progress \<Rightarrow> learning_progress" where
  "updateProgress_updater hookId updates now prev =
     obj_set prev hookId
       (spread_updates (spread_entry (entry_defaults now) (obj_get prev hookId)) updates)"

text \<open>A sequence of calls, each with its hook id, its updates and the clock at the call.\<close>

type_synonym progress_call = "string \<times> progress_updates \<times> int"

fun run_updates :: "learning_progress \<Rightarrow> progress_call list \<Rightarrow> learning_progress" where
  "run_updates p [] = p"
| "run_updates p ((hookId, updates, now) # cs) =
     run_updates (updateProgress_updater hookId updates now p) cs"

subsection \<open>The merge invariant in the specification's words\<close>

text \<open>
  The last value written to a field by a list of partial updates, or \<open>d\<close> when no update
  of the list names the field.
\<close>

fun last_written :: "('u \<Rightarrow> 'a option) \<Rightarrow> 'a \<Rightarrow> 'u list \<Rightarrow> 'a" where
  "last_written f d [] = d"
| "last_written f d (u # us) = last_written f (case f u of None \<Rightarrow> d | Some v \<Rightarrow> v) us"

definition calls_for :: "string \<Rightarrow> progress_call list \<Rightarrow> progress_call list" where
  "calls_for k cs = filter (\<lambda>c. fst c = k) cs"

definition updates_for :: "string \<Rightarrow> progress_call list \<Rightarrow> progress_updates list" where
  "updates_for k cs = map (\<lambda>c. fst (snd c)) (calls_for k cs)"

text \<open>
  The record the specification expects for topic \<open>k\<close> after the calls \<open>cs\<close>: absent when
  no call names \<open>k\<close>; otherwise the last written value per field, with the documented
  defaults, and for \<^verbatim>\<open>lastVisited\<close> the clock of the first call for \<open>k\<close>.
\<close>

definition expected_entry :: "string \<Rightarrow> progress_call list \<Rightarrow> progress_entry option" where
  "expected_entry k cs =
     (case calls_for k cs of
        [] \<Rightarrow> None
      | c # _ \<Rightarrow>
          Some \<lparr>completed = last_written upd_completed False (updates_for k cs),
                timeSpent = last_written upd_timeSpent 0 (updates_for k cs),
                lastVisited = last_written upd_lastVisited (snd (snd c)) (updates_for k cs),
                notesText = last_written upd_notes [] (updates_for k cs),
                bookmarked = last_written upd_bookmarked False (updates_for k cs)\<rparr>)"

subsection \<open>Persistence: localStorage and the two effects\<close>

text \<open>
  \<^verbatim>\<open>localStorage\<close> maps a key to the text stored under it. Both entries are written
  with \<^verbatim>\<open>JSON.stringify\<close>; the text is represented by the value it serialises.
\<close>

datatype stored = progress_json learning_progress | settings_json learning_settings

type_synonym storage = "string \<Rightarrow> stored option"

definition getItem :: "storage \<Rightarrow> string \<Rightarrow> stored option" where
  "getItem st key = st key"

definition setItem :: "storage \<Rightarrow> string \<Rightarrow> stored \<Rightarrow> storage" where
  "setItem st key v = st(key \<mapsto> v)"

definition removeItem :: "storage \<Rightarrow> string \<Rightarrow> storage" where
  "removeItem st key = st(key := None)"

text \<open>The two pieces of component state of \<^verbatim>\<open>LearningProvider\<close>, and the browser's storage.\<close>

record provider =
  progress :: learning_progress
  settings :: learning_settings
  localStorage :: storage

text \<open>
  The first effect, with dependencies \<^verbatim>\<open>[progress, settings.autoSave]\<close>, and the second,
  with dependency \<^verbatim>\<open>[settings]\<close>.
\<close>

definition progress_effect :: "provider \<Rightarrow> provider" where
  "progress_effect s =
     (if autoSave (settings s)
      then s\<lparr>localStorage :=
               setItem (localStorage s) ''learning-progress'' (progress_json (progress s))\<rparr>
      else s)"

definition settings_effect :: "provider \<Rightarrow> provider" where
  "settings_effect s =
     s\<lparr>localStorage :=
          setItem (localStorage s) ''learning-settings'' (settings_json (settings s))\<rparr>"

text \<open>
  What React does after an event handler has returned: the component renders with the
  new state, and then each effect runs whose dependencies differ from those of the
  previous render. A state object is compared by identity, and every setter call of
  this component passes a freshly built object, so \<open>progress_set\<close> and \<open>settings_set\<close>
  say which setters the handler called; \<^verbatim>\<open>settings.autoSave\<close> is a boolean and is compared
  by value. \<open>before\<close> is the state of the previous render, \<open>s\<close> the state the handler
  left. The effects run in the order they are declared.
\<close>

definition render_effects :: "bool \<Rightarrow> bool \<Rightarrow> provider \<Rightarrow> provider \<Rightarrow> provider" where
  "render_effects progress_set settings_set before s =
     (let s1 = (if progress_set \<or> autoSave (settings s) \<noteq> autoSave (settings before)
                then progress_effect s else s)
      in if settings_set then settings_effect s1 else s1)"

subsection \<open>The operations of the context\<close>

definition updateProgress ::
  "string \<Rightarrow> progress_updates \<Rightarrow> int \<Rightarrow> provider \<Rightarrow> provider" where
  "updateProgress hookId updates now s =
     render_effects True False s
       (s\<lparr>progress := updateProgress_updater hookId updates now (progress s)\<rparr>)"

text \<open>\<^verbatim>\<open>{...prev, ...updates}\<close> on the settings.\<close>

definition spread_settings :: "learning_settings \<Rightarrow> settings_updates \<Rightarrow> learning_settings" where
  "spread_settings r u =
     \<lparr>theme = (case upd_theme u of None \<Rightarrow> theme r | Some v \<Rightarrow> v),
      difficulty = (case upd_difficulty u of None \<Rightarrow> difficulty r | Some v \<Rightarrow> v),
      showHints = (case upd_showHints u of None \<Rightarrow> showHints r | Some v \<Rightarrow> v),
      autoSave = (case upd_autoSave u of None \<Rightarrow> autoSave r | Some v \<Rightarrow> v),
      soundEnabled = (case upd_soundEnabled u of None \<Rightarrow> soundEnabled r | Some v \<Rightarrow> v)\<rparr>"

definition updateSettings :: "settings_updates \<Rightarrow> provider \<Rightarrow> provider" where
  "updateSettings updates s =
     render_effects False True s (s\<lparr>settings := spread_settings (settings s) updates\<rparr>)"

text \<open>
  \<^verbatim>\<open>resetProgress\<close> queues the empty map and removes the stored entry at once; the
  render that follows sees a new \<^verbatim>\<open>progress\<close> object.
\<close>

definition resetProgress :: "provider \<Rightarrow> provider" where
  "resetProgress s =
     render_effects True False s
       (s\<lparr>progress := [],
          localStorage := removeItem (localStorage s) ''learning-progress''\<rparr>)"

definition getCompletionPercentage :: "provider \<Rightarrow> number" where
  "getCompletionPercentage s =
     (let totalHooks = 16;
          completedHooks = length (filter completed (Object_values (progress s)))
      in Math_round (js_mul (js_div completedHooks totalHooks) 100))"

definition getTotalTimeSpent :: "provider \<Rightarrow> int" where
  "getTotalTimeSpent s = foldl (\<lambda>total p. total + timeSpent p) 0 (Object_values (progress s))"

section \<open>The quiz (QuizModal)\<close>

record question =
  q_id :: string
  question_text :: string
  options :: "string list"
  correctAnswer :: int
  explanation :: string

record quiz =
  currentQuestion :: int
  selectedAnswers :: "int option list"
  showResults :: bool
  quizCompleted :: bool

definition initial_quiz :: quiz where
  "initial_quiz = \<lparr>currentQuestion = 0, selectedAnswers = [], showResults = False,
     quizCompleted = False\<rparr>"

definition handleAnswerSelect :: "int \<Rightarrow> quiz \<Rightarrow> quiz" where
  "handleAnswerSelect answerIndex s =
     s\<lparr>selectedAnswers := js_array_set (selectedAnswers s) (currentQuestion s) answerIndex\<rparr>"

text \<open>The \<^verbatim>\<open>forEach\<close> loop of \<^verbatim>\<open>calculateScore\<close>, with its index and its counter.\<close>

fun count_correct :: "question list \<Rightarrow> int option list \<Rightarrow> int \<Rightarrow> nat \<Rightarrow> nat" where
  "count_correct [] sel index correct = correct"
| "count_correct (q # qs) sel index correct =
     count_correct qs sel (index + 1)
       (if js_array_get sel index = Some (correctAnswer q) then correct + 1 else correct)"

definition calculateScore :: "question list \<Rightarrow> int option list \<Rightarrow> number" where
  "calculateScore questions sel =
     Math_round (js_mul (js_div (count_correct questions sel 0 0) (length questions)) 100)"

text \<open>
  \<^verbatim>\<open>nextQuestion\<close> returns the new state and, when it finishes the quiz, the score it
  hands to \<^verbatim>\<open>onComplete\<close>.
\<close>

definition nextQuestion :: "question list \<Rightarrow> quiz \<Rightarrow> quiz \<times> number option" where
  "nextQuestion questions s =
     (if currentQuestion s < int (length questions) - 1
      then (s\<lparr>currentQuestion := currentQuestion s + 1\<rparr>, None)
      else (s\<lparr>showResults := True, quizCompleted := True\<rparr>,
            Some (calculateScore questions (selectedAnswers s))))"

definition previousQuestion :: "quiz \<Rightarrow> quiz" where
  "previousQuestion s =
     (if 0 < currentQuestion s then s\<lparr>currentQuestion := currentQuestion s - 1\<rparr> else s)"

definition resetQuiz :: "quiz \<Rightarrow> quiz" where
  "resetQuiz s = s\<lparr>currentQuestion := 0, selectedAnswers := [], showResults := False,
     quizCompleted := False\<rparr>"

section \<open>The callers in HookLearning\<close>

text \<open>An empty \<^verbatim>\<open>selectedHook\<close> is falsy, and each handler then does nothing.\<close>

definition markAsCompleted :: "string \<Rightarrow> int \<Rightarrow> provider \<Rightarrow> provider" where
  "markAsCompleted selectedHook now s =
     (if selectedHook \<noteq> []
      then updateProgress selectedHook (no_updates\<lparr>upd_completed := Some True\<rparr>) now s
      else s)"

definition handleQuizComplete :: "string \<Rightarrow> number \<Rightarrow> int \<Rightarrow> provider \<Rightarrow> provider" where
  "handleQuizComplete selectedHook score now s =
     (if selectedHook \<noteq> []
      then updateProgress selectedHook
             (no_updates\<lparr>upd_completed := Some (number_ge score 70)\<rparr>) now s
      else s)"

text \<open>\<^verbatim>\<open>progress[hookId]?.timeSpent || 0\<close>: 0 for a topic without an entry.\<close>

definition timeSpent_or_zero :: "learning_progress \<Rightarrow> string \<Rightarrow> int" where
  "timeSpent_or_zero p hookId = (case obj_get p hookId of None \<Rightarrow> 0 | Some r \<Rightarrow> timeSpent r)"

text \<open>
  The cleanup of the effect on \<^verbatim>\<open>selectedHook\<close>. It closes over the \<^verbatim>\<open>progress\<close> and the
  \<^verbatim>\<open>sessionStartTime\<close> of the render that set the effect up (\<open>captured\<close> and
  \<open>sessionStartTime\<close>, \<open>None\<close> for \<^verbatim>\<open>null\<close>); \<open>clock\<close> is \<^verbatim>\<open>new Date().getTime()\<close> at the
  cleanup and \<open>now\<close> the clock read inside \<^verbatim>\<open>updateProgress\<close>. Times are whole
  milliseconds, so \<^verbatim>\<open>Math.floor(d / 1000)\<close> is \<open>d div 1000\<close>.
\<close>

definition session_cleanup ::
  "string \<Rightarrow> int option \<Rightarrow> learning_progress \<Rightarrow> int \<Rightarrow> int \<Rightarrow> provider \<Rightarrow> provider"
  where
  "session_cleanup selectedHook sessionStartTime captured clock now s =
     (case sessionStartTime of
        None \<Rightarrow> s
      | Some start \<Rightarrow>
          if selectedHook \<noteq> []
          then updateProgress selectedHook
                 (no_updates\<lparr>upd_timeSpent :=
                    Some (timeSpent_or_zero captured selectedHook
                          + (clock - start) div 1000)\<rparr>) now s
          else s)"

section \<open>Sequences of operations on the context\<close>

datatype operation =
    UpdateProgress string progress_updates int
  | UpdateSettings settings_updates
  | ResetProgress

fun apply_operation :: "provider \<Rightarrow> operation \<Rightarrow> provider" where
  "apply_operation s (UpdateProgress hookId updates now) = updateProgress hookId updates now s"
| "apply_operation s (UpdateSettings updates) = updateSettings updates s"
| "apply_operation s ResetProgress = resetProgress s"

fun run_operations :: "provider \<Rightarrow> operation list \<Rightarrow> provider" where
  "run_operations s [] = s"
| "run_operations s (op # ops) = run_operations (apply_operation s op) ops"

fun is_reset :: "operation \<Rightarrow> bool" where
  "is_reset ResetProgress = True"
| "is_reset _ = False"

text \<open>
  The contract the specification puts on the callers of \<^verbatim>\<open>updateProgress\<close> (they pass
  the previous time plus the elapsed time): every \<^verbatim>\<open>timeSpent\<close> written in the sequence is
  at least the topic's value just before that call.
\<close>

fun time_writes_grow :: "provider \<Rightarrow> operation list \<Rightarrow> bool" where
  "time_writes_grow s [] = True"
| "time_writes_grow s (UpdateProgress hookId updates now # ops) =
     ((case upd_timeSpent updates of
         None \<Rightarrow> True
       | Some v \<Rightarrow> timeSpent_or_zero (progress s) hookId \<le> v) \<and>
      time_writes_grow (updateProgress hookId updates now s) ops)"
| "time_writes_grow s (op # ops) = time_writes_grow (apply_operation s op) ops"

section \<open>The specification's formulas\<close>

text \<open>
  The percentage the specification writes, \<open>round (100 * c / n)\<close>, in exact arithmetic
  (a tie going up, as \<^verbatim>\<open>Math.round\<close> does).
\<close>

definition spec_round_percent :: "nat \<Rightarrow> nat \<Rightarrow> nat" where
  "spec_round_percent c n = (200 * c + n) div (2 * n)"

text \<open>
  The count the specification writes: the questions whose selected option index equals
  the question's correct option index, a question without a selection never matching.
\<close>

definition spec_correct_count :: "question list \<Rightarrow> int option list \<Rightarrow> nat" where
  "spec_correct_count qs sel =
     length (filter (\<lambda>i. js_array_get sel (int i) = Some (correctAnswer (qs ! i)))
               [0..<length qs])"

section \<open>Sample data\<close>

definition sample_question :: "int \<Rightarrow> question" where
  "sample_question c = \<lparr>q_id = ''q'', question_text = ''?'', options = [''A'', ''B'', ''C''],
     correctAnswer = c, explanation = ''because''\<rparr>"

definition sample_entry :: progress_entry where
  "sample_entry = \<lparr>completed = True, timeSpent = 120, lastVisited = 1000,
     notesText = ''state is a snapshot'', bookmarked = False\<rparr>"

definition sample_provider :: "bool \<Rightarrow> provider" where
  "sample_provider auto_save =
     \<lparr>progress = [(''useState'', sample_entry)],
      settings = default_settings\<lparr>autoSave := auto_save\<rparr>,
      localStorage =
        [''learning-progress'' \<mapsto> progress_json [(''useState'', sample_entry)],
         ''learning-settings'' \<mapsto> settings_json default_settings]\<rparr>"

definition time_update :: "int \<Rightarrow> progress_updates" where
  "time_update v = no_updates\<lparr>upd_timeSpent := Some v\<rparr>"

text \<open>The sixteen hook ids of \<^verbatim>\<open>hooks.ts\<close>.\<close>

definition catalog_ids :: "string list" where
  "catalog_ids = [''useState'', ''useEffect'', ''useContext'', ''useReducer'', ''useCallback'',
     ''useMemo'', ''useRef'', ''useImperativeHandle'', ''useLayoutEffect'', ''useDebugValue'',
     ''useId'', ''useDeferredValue'', ''useTransition'', ''useSyncExternalStore'',
     ''useInsertionEffect'', ''custom'']"

text \<open>A progress map with a completed record for each catalog id and for one more id.\<close>

definition seventeen_completed :: provider where
  "seventeen_completed =
     \<lparr>progress = map (\<lambda>h. (h, sample_entry)) (catalog_ids @ [''useOptimistic'']),
      settings = default_settings,
      localStorage = Map.empty\<rparr>"

text \<open>Four completed records and one that is not.\<close>

definition four_completed :: provider where
  "four_completed =
     \<lparr>progress = map (\<lambda>h. (h, sample_entry)) (take 4 catalog_ids)
                  @ [(''useRef'', sample_entry\<lparr>completed := False\<rparr>)],
      settings = default_settings,
      localStorage = Map.empty\<rparr>"

text \<open>The correct answers 1, 2, 0 of the specification's scoring example.\<close>

definition three_questions :: "question list" where
  "three_questions = [sample_question 1, sample_question 2, sample_question 0]"

text \<open>Forty questions with correct answer 0, and a selection that has 23 of them right.\<close>

definition forty_questions :: "question list" where
  "forty_questions = replicate 40 (sample_question 0)"

definition twenty_three_right :: "int option list" where
  "twenty_three_right = replicate 23 (Some 0) @ replicate 17 (Some 1)"

section \<open>Verification: numbers\<close>

subsection \<open>Bit lengths\<close>

lemma bitlen_0: "bitlen 0 = 0"
  by (simp add: bitlen.simps)

lemma bitlen_pos: "0 < n \<Longrightarrow> bitlen n = Suc (bitlen (n div 2))"
  by (subst bitlen.simps) simp

lemma bitlen_double: "0 < n \<Longrightarrow> bitlen (2 * n) = Suc (bitlen n)"
  by (subst bitlen.simps) simp

lemma bitlen_mult_pow: "0 < n \<Longrightarrow> bitlen (n * 2 ^ i) = bitlen n + i"
proof (induction i)
  case 0
  show ?case by simp
next
  case (Suc i)
  have "bitlen (n * 2 ^ Suc i) = bitlen (2 * (n * 2 ^ i))"
    by (simp add: mult.assoc mult.left_commute)
  also have "\<dots> = Suc (bitlen (n * 2 ^ i))"
    using Suc.prems by (intro bitlen_double) simp
  finally show ?case using Suc by simp
qed

lemma bitlen_1: "bitlen (Suc 0) = Suc 0"
  by (simp add: bitlen.simps)

lemma bitlen_pow: "bitlen (2 ^ j) = Suc j"
  using bitlen_mult_pow [of 1 j] by (simp add: bitlen_1)

lemma bitlen_upper: "n < 2 ^ bitlen n"
proof (induction n rule: bitlen.induct)
  case (1 n)
  show ?case
  proof (cases "n = 0")
    case True
    then show ?thesis by (simp add: bitlen_0)
  next
    case False
    then have "n div 2 < 2 ^ bitlen (n div 2)" using 1 by simp
    then have "n < 2 * 2 ^ bitlen (n div 2)" by linarith
    with False show ?thesis by (simp add: bitlen_pos)
  qed
qed

lemma bitlen_lower: "0 < n \<Longrightarrow> 2 ^ (bitlen n - 1) \<le> n"
proof (induction n rule: bitlen.induct)
  case (1 n)
  show ?case
  proof (cases "n div 2 = 0")
    case True
    with 1(2) have "n = 1" by linarith
    then show ?thesis by (simp add: bitlen_1)
  next
    case False
    then have pos: "0 < n div 2" by simp
    with 1 have "2 ^ (bitlen (n div 2) - 1) \<le> n div 2" by simp
    moreover have "0 < bitlen (n div 2)" using pos by (simp add: bitlen_pos)
    ultimately have "2 ^ bitlen (n div 2) \<le> 2 * (n div 2)"
      by (cases "bitlen (n div 2)") simp_all
    then have "2 ^ bitlen (n div 2) \<le> n" by linarith
    with 1(2) show ?thesis by (simp add: bitlen_pos)
  qed
qed

lemma bitlen_le: "n < 2 ^ b \<Longrightarrow> bitlen n \<le> b"
proof (cases "n = 0")
  case True
  then show ?thesis by (simp add: bitlen_0)
next
  case False
  assume "n < 2 ^ b"
  from False have "(2::nat) ^ (bitlen n - 1) \<le> n" using bitlen_lower [of n] by simp
  also note \<open>n < 2 ^ b\<close>
  finally have "bitlen n - 1 < b" by simp
  then show ?thesis by simp
qed

lemma normalised_lower:
  assumes "0 < M" and "M < 2 ^ 53"
  shows "2 ^ 52 \<le> M * 2 ^ (53 - bitlen M)" and "M * 2 ^ (53 - bitlen M) < 2 ^ 53"
proof -
  have le: "bitlen M \<le> 53" using assms by (simp add: bitlen_le)
  have pos: "0 < bitlen M" using assms by (simp add: bitlen_pos)
  have "(2::nat) ^ 52 = 2 ^ (bitlen M - 1) * 2 ^ (53 - bitlen M)"
    using le pos by (simp flip: power_add)
  also have "\<dots> \<le> M * 2 ^ (53 - bitlen M)"
    using bitlen_lower [OF assms(1)] by simp
  finally show "2 ^ 52 \<le> M * 2 ^ (53 - bitlen M)" .
  have "M * 2 ^ (53 - bitlen M) < 2 ^ bitlen M * 2 ^ (53 - bitlen M)"
    using bitlen_upper [of M] by simp
  also have "\<dots> = 2 ^ 53" using le by (simp flip: power_add)
  finally show "M * 2 ^ (53 - bitlen M) < 2 ^ 53" .
qed

subsection \<open>Exact cases of the rounding\<close>

lemma round_binary64_zero: "round_binary64 0 D e = Finite 0 0"
  by (simp add: round_binary64_def)

text \<open>
  Rounding is exact on a value whose significand fits in 53 bits: the result is that
  value with its significand shifted up to 53 bits.
\<close>

lemma round_binary64_exact:
  assumes "0 < M" and "M < 2 ^ 53"
  shows "round_binary64 (M * 2 ^ i) (2 ^ j) e =
           Finite (M * 2 ^ (53 - bitlen M)) (e + int i - int j - int (53 - bitlen M))"
proof -
  define t where "t = 53 - bitlen M"
  have le: "bitlen M \<le> 53" using assms by (simp add: bitlen_le)
  have low: "2 ^ 52 \<le> M * 2 ^ t" and up: "M * 2 ^ t < 2 ^ 53"
    using normalised_lower [OF assms] by (simp_all add: t_def)
  define k where "k = 53 + int (bitlen (2 ^ j :: nat)) - int (bitlen (M * 2 ^ i))"
  have k: "k = int j + 1 + int t - int i"
    using le assms by (simp add: k_def bitlen_pow bitlen_mult_pow t_def)
  have N0: "M * 2 ^ i \<noteq> 0" using assms by simp
  show ?thesis
  proof (cases "0 \<le> k")
    case True
    then have nk: "i + nat k = j + 1 + t" using k by linarith
    have N1: "M * 2 ^ i * 2 ^ nat k = M * 2 ^ t * 2 * 2 ^ j"
      using nk by (simp add: mult.assoc flip: power_add)
    have big: "2 ^ 53 \<le> (M * 2 ^ i * 2 ^ nat k) div 2 ^ j"
      using low by (simp add: N1)
    have m0: "(M * 2 ^ i * 2 ^ nat k) div (2 * 2 ^ j) = M * 2 ^ t"
      by (simp add: N1)
    have r: "(M * 2 ^ i * 2 ^ nat k) mod (2 * 2 ^ j) = 0"
      by (simp add: N1)
    have ex: "e - (k - 1) = e + int i - int j - int t" using k by simp
    show ?thesis
      unfolding round_binary64_def Let_def k_def [symmetric]
      using True N0 big m0 r ex by (simp add: t_def)
  next
    case False
    then have nk: "i = j + 1 + t + nat (- k)" using k by linarith
    have D1: "(2::nat) ^ j * 2 ^ nat (- k) * 2 * 2 ^ t = 2 ^ i"
      by (subst nk) (simp add: power_add)
    have N1: "M * 2 ^ i = M * 2 ^ t * 2 * (2 ^ j * 2 ^ nat (- k))"
      by (simp flip: D1)
    have big: "2 ^ 53 \<le> (M * 2 ^ i) div (2 ^ j * 2 ^ nat (- k))"
      using low by (subst N1) simp
    have m0: "(M * 2 ^ i) div (2 * (2 ^ j * 2 ^ nat (- k))) = M * 2 ^ t"
      by (subst N1) simp
    have r: "(M * 2 ^ i) mod (2 * (2 ^ j * 2 ^ nat (- k))) = 0"
      by (subst N1) simp
    have ex: "e - (k - 1) = e + int i - int j - int t" using k by simp
    show ?thesis
      unfolding round_binary64_def Let_def k_def [symmetric]
      using False N0 big m0 r ex by (simp add: t_def)
  qed
qed

lemma js_div_pow2:
  assumes "0 < k" and "k < 2 ^ 53"
  shows "js_div k (2 ^ j) =
           Finite (k * 2 ^ (53 - bitlen k)) (- int j - int (53 - bitlen k))"
  using round_binary64_exact [OF assms, of 0 j 0] by (simp add: js_div_def)

lemma percent_of_zero: "Math_round (js_mul (js_div 0 (Suc n)) 100) = Finite 0 0"
  by (simp add: js_div_def js_mul_def round_binary64_zero Math_round_def)

lemma percent_of_sixteen:
  assumes "k < 2 ^ 48"
  shows "Math_round (js_mul (js_div k 16) 100) = Finite (spec_round_percent k 16) 0"
proof (cases "k = 0")
  case True
  then show ?thesis
    using percent_of_zero [of 15] by (simp add: spec_round_percent_def)
next
  case False
  define t where "t = 53 - bitlen k"
  define t' where "t' = 53 - bitlen (25 * k)"
  have k53: "k < 2 ^ 53" using assms by simp
  have q: "js_div k 16 = Finite (k * 2 ^ t) (- 4 - int t)"
    using js_div_pow2 [of k 4] False k53 by (simp add: t_def)
  have M: "0 < 25 * k" "25 * k < 2 ^ 53" using False assms by simp_all
  have "k * 2 ^ t * 100 = 25 * k * 2 ^ (t + 2)" by simp
  then have "js_mul (js_div k 16) 100
      = round_binary64 (25 * k * 2 ^ (t + 2)) (2 ^ 0) (- 4 - int t)"
    by (simp only: q js_mul_def number.case power_0)
  also have "\<dots> = Finite (25 * k * 2 ^ t') (- 4 - int t + int (t + 2) - int 0 - int t')"
    by (simp only: round_binary64_exact [OF M] t'_def)
  also have "- 4 - int t + int (t + 2) - int 0 - int t' = - 2 - int t'"
    by simp
  finally have p: "js_mul (js_div k 16) 100 = Finite (25 * k * 2 ^ t') (- 2 - int t')" .
  have neg: "\<not> 0 \<le> - 2 - int t'" by simp
  have e: "nat (- (- 2 - int t')) = t' + 2" by simp
  have num: "2 * (25 * k * 2 ^ t') + 2 ^ (t' + 2) = (2 * 2 ^ t') * (25 * k + 2)"
    by (simp add: algebra_simps)
  have den: "(2::nat) ^ (t' + 2 + 1) = (2 * 2 ^ t') * 4"
    by simp
  have r: "(2 * (25 * k * 2 ^ t') + 2 ^ (t' + 2)) div 2 ^ (t' + 2 + 1)
      = (25 * k + 2) div 4"
    unfolding num den by (rule div_mult_mult1) simp
  have "spec_round_percent k 16 = (8 * (25 * k + 2)) div (8 * 4)"
    by (simp add: spec_round_percent_def)
  also have "\<dots> = (25 * k + 2) div 4"
    by (rule div_mult_mult1) simp
  finally have s: "spec_round_percent k 16 = (25 * k + 2) div 4" .
  show ?thesis
    unfolding p Math_round_def by (simp only: number.case neg if_False e r s)
qed

lemma spec_round_percent_range: "spec_round_percent k 16 \<le> 100 \<longleftrightarrow> k \<le> 16"
proof -
  have "spec_round_percent k 16 = (8 * (25 * k + 2)) div (8 * 4)"
    by (simp add: spec_round_percent_def)
  also have "\<dots> = (25 * k + 2) div 4"
    by (rule div_mult_mult1) simp
  finally show ?thesis by linarith
qed

lemma percent_of_three:
  assumes "k \<le> 3"
  shows "Math_round (js_mul (js_div k 3) 100) = Finite (spec_round_percent k 3) 0"
proof -
  from assms consider "k = 0" | "k = 1" | "k = 2" | "k = 3" by linarith
  then show ?thesis
    by cases
      (simp_all add: js_div_def js_mul_def round_binary64_def Let_def Math_round_def
        bitlen.simps spec_round_percent_def)
qed

section \<open>Verification of the progress store\<close>

subsection \<open>The merge invariant\<close>

lemma obj_get_obj_set:
  "obj_get (obj_set p k v) k' = (if k' = k then Some v else obj_get p k')"
  by (induction p) auto

lemma last_written_completed:
  "completed (foldl spread_updates r us) = last_written upd_completed (completed r) us"
  by (induction us arbitrary: r) (simp_all add: spread_updates_def)

lemma last_written_timeSpent:
  "timeSpent (foldl spread_updates r us) = last_written upd_timeSpent (timeSpent r) us"
  by (induction us arbitrary: r) (simp_all add: spread_updates_def)

lemma last_written_lastVisited:
  "lastVisited (foldl spread_updates r us) = last_written upd_lastVisited (lastVisited r) us"
  by (induction us arbitrary: r) (simp_all add: spread_updates_def)

lemma last_written_notes:
  "notesText (foldl spread_updates r us) = last_written upd_notes (notesText r) us"
  by (induction us arbitrary: r) (simp_all add: spread_updates_def)

lemma last_written_bookmarked:
  "bookmarked (foldl spread_updates r us) = last_written upd_bookmarked (bookmarked r) us"
  by (induction us arbitrary: r) (simp_all add: spread_updates_def)

lemma foldl_spread_fields:
  "foldl spread_updates r us =
     \<lparr>completed = last_written upd_completed (completed r) us,
      timeSpent = last_written upd_timeSpent (timeSpent r) us,
      lastVisited = last_written upd_lastVisited (lastVisited r) us,
      notesText = last_written upd_notes (notesText r) us,
      bookmarked = last_written upd_bookmarked (bookmarked r) us\<rparr>"
  by (simp add: last_written_completed last_written_timeSpent last_written_lastVisited
      last_written_notes last_written_bookmarked)

lemma run_updates_get:
  "obj_get (run_updates p cs) k =
     (case obj_get p k of
        Some r \<Rightarrow> Some (foldl spread_updates r (updates_for k cs))
      | None \<Rightarrow>
          (case calls_for k cs of
             [] \<Rightarrow> None
           | c # _ \<Rightarrow> Some (foldl spread_updates (entry_defaults (snd (snd c))) (updates_for k cs))))"
proof (induction cs arbitrary: p)
  case Nil
  show ?case by (simp add: updates_for_def calls_for_def split: option.splits)
next
  case (Cons c cs)
  obtain h u t where c: "c = (h, u, t)" by (cases c) auto
  show ?case
    unfolding c
    by (simp add: Cons.IH updateProgress_updater_def obj_get_obj_set spread_entry_def
        updates_for_def calls_for_def split: option.splits list.splits)
qed

text \<open>
  Claim C1. Starting from the empty map, after any finite sequence of \<^verbatim>\<open>updateProgress\<close>
  calls the record of every topic is the one the specification expects: no record when
  no call named the topic, and otherwise, field by field, the last value written, or
  the default (\<open>completed = False\<close>, \<open>timeSpent = 0\<close>, empty notes,
  \<open>bookmarked = False\<close>, and for \<open>lastVisited\<close> the clock of the first call) for a field
  that no call wrote. One call on any map keeps every field of the topic's record that
  the update leaves out, and keeps the records of all other topics.
\<close>

theorem updateProgress_merge_invariant:
  "obj_get (run_updates [] cs) k = expected_entry k cs \<and>
   (\<forall>r. obj_get p k = Some r \<longrightarrow>
      (\<exists>r'. obj_get (updateProgress_updater k u now p) k = Some r' \<and>
         (upd_completed u = None \<longrightarrow> completed r' = completed r) \<and>
         (upd_timeSpent u = None \<longrightarrow> timeSpent r' = timeSpent r) \<and>
         (upd_lastVisited u = None \<longrightarrow> lastVisited r' = lastVisited r) \<and>
         (upd_notes u = None \<longrightarrow> notesText r' = notesText r) \<and>
         (upd_bookmarked u = None \<longrightarrow> bookmarked r' = bookmarked r))) \<and>
   (\<forall>k'. k' \<noteq> k \<longrightarrow> obj_get (updateProgress_updater k u now p) k' = obj_get p k')"
proof (intro conjI allI impI)
  show "obj_get (run_updates [] cs) k = expected_entry k cs"
    by (simp add: run_updates_get expected_entry_def foldl_spread_fields entry_defaults_def
        split: list.splits)
next
  fix r assume "obj_get p k = Some r"
  then show "\<exists>r'. obj_get (updateProgress_updater k u now p) k = Some r' \<and>
         (upd_completed u = None \<longrightarrow> completed r' = completed r) \<and>
         (upd_timeSpent u = None \<longrightarrow> timeSpent r' = timeSpent r) \<and>
         (upd_lastVisited u = None \<longrightarrow> lastVisited r' = lastVisited r) \<and>
         (upd_notes u = None \<longrightarrow> notesText r' = notesText r) \<and>
         (upd_bookmarked u = None \<longrightarrow> bookmarked r' = bookmarked r)"
    by (simp add: updateProgress_updater_def obj_get_obj_set spread_entry_def spread_updates_def)
next
  fix k' assume "k' \<noteq> k"
  then show "obj_get (updateProgress_updater k u now p) k' = obj_get p k'"
    by (simp add: updateProgress_updater_def obj_get_obj_set)
qed

theorem updateProgress_merge_invariant_witness:
  "obj_get (run_updates []
      [(''a'', no_updates\<lparr>upd_bookmarked := Some True\<rparr>, 5),
       (''b'', no_updates\<lparr>upd_completed := Some True\<rparr>, 7),
       (''a'', no_updates\<lparr>upd_notes := Some ''x''\<rparr>, 9)]) ''a''
     = Some \<lparr>completed = False, timeSpent = 0, lastVisited = 5, notesText = ''x'',
          bookmarked = True\<rparr> \<and>
   (\<exists>r'. obj_get (updateProgress_updater ''a'' (no_updates\<lparr>upd_notes := Some ''x''\<rparr>) 9
          [(''a'', \<lparr>completed = True, timeSpent = 30, lastVisited = 5, notesText = ''old'',
              bookmarked = True\<rparr>)]) ''a'' = Some r' \<and>
      completed r' \<and> timeSpent r' = 30 \<and> lastVisited r' = 5 \<and> bookmarked r') \<and>
   obj_get (updateProgress_updater ''a'' (no_updates\<lparr>upd_notes := Some ''x''\<rparr>) 9
          [(''a'', \<lparr>completed = True, timeSpent = 30, lastVisited = 5, notesText = ''old'',
              bookmarked = True\<rparr>)]) ''b'' = None"
  using updateProgress_merge_invariant
    [of "[(''a'', no_updates\<lparr>upd_bookmarked := Some True\<rparr>, 5),
          (''b'', no_updates\<lparr>upd_completed := Some True\<rparr>, 7),
          (''a'', no_updates\<lparr>upd_notes := Some ''x''\<rparr>, 9)]" "''a''"
        "[(''a'', \<lparr>completed = True, timeSpent = 30, lastVisited = 5, notesText = ''old'',
              bookmarked = True\<rparr>)]" "no_updates\<lparr>upd_notes := Some ''x''\<rparr>" 9]
  by (simp add: expected_entry_def calls_for_def updates_for_def no_updates_def)

subsection \<open>What each operation does to the state and to the storage\<close>

lemma updateProgress_progress:
  "progress (updateProgress hookId updates now s) =
     updateProgress_updater hookId updates now (progress s)"
  by (simp add: updateProgress_def render_effects_def progress_effect_def)

lemma updateProgress_settings:
  "settings (updateProgress hookId updates now s) = settings s"
  by (simp add: updateProgress_def render_effects_def progress_effect_def)

lemma updateProgress_storage:
  "localStorage (updateProgress hookId updates now s) =
     (if autoSave (settings s)
      then setItem (localStorage s) ''learning-progress''
             (progress_json (updateProgress_updater hookId updates now (progress s)))
      else localStorage s)"
  by (simp add: updateProgress_def render_effects_def progress_effect_def)

lemma updateSettings_settings:
  "settings (updateSettings updates s) = spread_settings (settings s) updates"
  by (simp add: updateSettings_def render_effects_def progress_effect_def settings_effect_def)

lemma updateSettings_progress: "progress (updateSettings updates s) = progress s"
  by (simp add: updateSettings_def render_effects_def progress_effect_def settings_effect_def)

lemma updateSettings_storage:
  "getItem (localStorage (updateSettings updates s)) ''learning-settings''
     = Some (settings_json (spread_settings (settings s) updates))"
  by (simp add: updateSettings_def render_effects_def progress_effect_def settings_effect_def
      getItem_def setItem_def)

lemma resetProgress_fields:
  "progress (resetProgress s) = [] \<and> settings (resetProgress s) = settings s \<and>
   localStorage (resetProgress s) =
     (if autoSave (settings s)
      then setItem (removeItem (localStorage s) ''learning-progress'') ''learning-progress''
             (progress_json [])
      else removeItem (localStorage s) ''learning-progress'')"
  by (simp add: resetProgress_def render_effects_def progress_effect_def)

subsection \<open>Persistence and autoSave\<close>

text \<open>
  Claim C6. After \<^verbatim>\<open>updateSettings\<close> the stored settings entry is the new settings
  record, whatever \<^verbatim>\<open>autoSave\<close> is. After \<^verbatim>\<open>updateProgress\<close> the stored progress entry is
  the new progress map if \<^verbatim>\<open>autoSave\<close> is on, and is the entry as it was before if it is
  off. In particular with \<^verbatim>\<open>autoSave\<close> off an \<^verbatim>\<open>updateProgress\<close> call leaves the storage
  unchanged, and a following \<^verbatim>\<open>updateSettings({autoSave: true})\<close> stores the settings,
  now with \<^verbatim>\<open>autoSave\<close> on.
\<close>

theorem settings_always_persisted_progress_only_with_autoSave:
  "getItem (localStorage (updateSettings updates s)) ''learning-settings''
     = Some (settings_json (settings (updateSettings updates s))) \<and>
   getItem (localStorage (updateProgress hookId pu now s)) ''learning-progress''
     = (if autoSave (settings s)
        then Some (progress_json (progress (updateProgress hookId pu now s)))
        else getItem (localStorage s) ''learning-progress'') \<and>
   (\<not> autoSave (settings s) \<longrightarrow>
      localStorage (updateProgress hookId pu now s) = localStorage s \<and>
      getItem (localStorage (updateSettings (no_settings_updates\<lparr>upd_autoSave := Some True\<rparr>)
                 (updateProgress hookId pu now s))) ''learning-settings''
        = Some (settings_json ((settings s)\<lparr>autoSave := True\<rparr>)))"
proof (intro conjI impI)
  show "getItem (localStorage (updateSettings updates s)) ''learning-settings''
     = Some (settings_json (settings (updateSettings updates s)))"
    by (simp add: updateSettings_storage updateSettings_settings)
next
  show "getItem (localStorage (updateProgress hookId pu now s)) ''learning-progress''
     = (if autoSave (settings s)
        then Some (progress_json (progress (updateProgress hookId pu now s)))
        else getItem (localStorage s) ''learning-progress'')"
    by (simp add: updateProgress_storage updateProgress_progress getItem_def setItem_def)
next
  assume "\<not> autoSave (settings s)"
  then show "localStorage (updateProgress hookId pu now s) = localStorage s"
    by (simp add: updateProgress_storage)
next
  have "spread_settings (settings s) (no_settings_updates\<lparr>upd_autoSave := Some True\<rparr>)
          = (settings s)\<lparr>autoSave := True\<rparr>"
    by (simp add: spread_settings_def no_settings_updates_def)
  then show "getItem (localStorage (updateSettings (no_settings_updates\<lparr>upd_autoSave := Some True\<rparr>)
                 (updateProgress hookId pu now s))) ''learning-settings''
        = Some (settings_json ((settings s)\<lparr>autoSave := True\<rparr>))"
    by (simp add: updateSettings_storage updateProgress_settings)
qed

theorem settings_always_persisted_progress_only_with_autoSave_witness:
  "getItem (localStorage (updateProgress ''useEffect'' (no_updates\<lparr>upd_bookmarked := Some True\<rparr>)
       3000 (sample_provider False))) ''learning-progress''
     = Some (progress_json [(''useState'', sample_entry)]) \<and>
   getItem (localStorage (updateSettings (no_settings_updates\<lparr>upd_autoSave := Some True\<rparr>)
       (updateProgress ''useEffect'' (no_updates\<lparr>upd_bookmarked := Some True\<rparr>)
          3000 (sample_provider False)))) ''learning-settings''
     = Some (settings_json default_settings)"
proof -
  have off: "\<not> autoSave (settings (sample_provider False))"
    by (simp add: sample_provider_def)
  from settings_always_persisted_progress_only_with_autoSave
    [of "no_settings_updates" "sample_provider False" "''useEffect''"
        "no_updates\<lparr>upd_bookmarked := Some True\<rparr>" 3000] off
  show ?thesis
    by (simp add: sample_provider_def default_settings_def getItem_def)
qed

subsection \<open>Reset\<close>

text \<open>
  Claim C8. \<^verbatim>\<open>resetProgress\<close> is idempotent on the whole state of the provider; the
  progress map is empty after one call and after two, and right after a reset
  \<^verbatim>\<open>getTotalTimeSpent\<close> is 0 and \<^verbatim>\<open>getCompletionPercentage\<close> is 0.
\<close>

theorem resetProgress_idempotent:
  "resetProgress (resetProgress s) = resetProgress s \<and>
   progress (resetProgress s) = [] \<and>
   progress (resetProgress (resetProgress s)) = [] \<and>
   getTotalTimeSpent (resetProgress s) = 0 \<and>
   getCompletionPercentage (resetProgress s) = Finite 0 0"
proof -
  have "resetProgress (resetProgress s) = resetProgress s"
    by (simp add: resetProgress_def render_effects_def progress_effect_def setItem_def
        removeItem_def)
  moreover have "getCompletionPercentage (resetProgress s) = Finite 0 0"
    using percent_of_zero [of 15]
    by (simp add: getCompletionPercentage_def resetProgress_fields Object_values_def)
  ultimately show ?thesis
    by (simp add: resetProgress_fields getTotalTimeSpent_def Object_values_def)
qed

text \<open>
  Claim C9, as stated, fails at a provider with \<^verbatim>\<open>autoSave\<close> on (the default) and a
  stored progress entry: \<^verbatim>\<open>resetProgress\<close> empties the map, but the stored entry is not
  gone afterwards, because the effect on \<^verbatim>\<open>progress\<close> runs after \<^verbatim>\<open>removeItem\<close> and stores
  the empty map. With \<^verbatim>\<open>autoSave\<close> off the entry is removed.
\<close>

theorem resetProgress_entry_counterexample:
  "autoSave (settings (sample_provider True)) \<and>
   getItem (localStorage (sample_provider True)) ''learning-progress''
     = Some (progress_json [(''useState'', sample_entry)]) \<and>
   progress (resetProgress (sample_provider True)) = [] \<and>
   getItem (localStorage (resetProgress (sample_provider True))) ''learning-progress''
     = Some (progress_json []) \<and>
   getItem (localStorage (resetProgress (sample_provider False))) ''learning-progress'' = None"
  by (simp add: resetProgress_fields sample_provider_def default_settings_def getItem_def
      setItem_def removeItem_def)

text \<open>
  Claim C9, amended. \<^verbatim>\<open>resetProgress\<close> empties the progress map and leaves the settings
  and their stored entry as they are; afterwards the stored progress entry is absent
  when \<^verbatim>\<open>autoSave\<close> is off, and is the serialised empty map when \<^verbatim>\<open>autoSave\<close> is on.
\<close>

theorem resetProgress_clears_map_and_keeps_settings:
  "progress (resetProgress s) = [] \<and>
   settings (resetProgress s) = settings s \<and>
   getItem (localStorage (resetProgress s)) ''learning-settings''
     = getItem (localStorage s) ''learning-settings'' \<and>
   getItem (localStorage (resetProgress s)) ''learning-progress''
     = (if autoSave (settings s) then Some (progress_json []) else None)"
  by (simp add: resetProgress_fields getItem_def setItem_def removeItem_def)

subsection \<open>Completion percentage\<close>

text \<open>
  Claim C2, as stated, fails: the total is the constant 16, so a map with 17 completed
  records gives 106, outside of \<open>[0, 100]\<close>.
\<close>

theorem completion_percentage_counterexample:
  "getCompletionPercentage seventeen_completed = Finite 106 0 \<and>
   number_ge (getCompletionPercentage seventeen_completed) 101"
proof -
  have "length (filter completed (Object_values (progress seventeen_completed))) = 17"
    by (simp add: seventeen_completed_def catalog_ids_def Object_values_def sample_entry_def)
  then have "getCompletionPercentage seventeen_completed = Finite (spec_round_percent 17 16) 0"
    using percent_of_sixteen [of 17] by (simp add: getCompletionPercentage_def)
  then show ?thesis by (simp add: spec_round_percent_def number_ge_def)
qed

text \<open>
  Claim C2, amended. With \<open>c\<close> the number of records that have \<open>completed\<close> set,
  \<^verbatim>\<open>getCompletionPercentage\<close> returns the integer \<open>round (100 * c / 16)\<close> (for \<open>c\<close> below
  \<open>2 ^ 48\<close>, where the binary64 product is exact); that integer is at most 100 exactly
  when \<open>c\<close> is at most 16; and with 4 completed records the result is 25.
\<close>

theorem completion_percentage_formula:
  "(length (filter completed (Object_values (progress s))) < 2 ^ 48 \<longrightarrow>
      getCompletionPercentage s =
        Finite (spec_round_percent
                  (length (filter completed (Object_values (progress s)))) 16) 0) \<and>
   (spec_round_percent (length (filter completed (Object_values (progress s)))) 16 \<le> 100
      \<longleftrightarrow> length (filter completed (Object_values (progress s))) \<le> 16) \<and>
   (length (filter completed (Object_values (progress s))) = 4 \<longrightarrow>
      getCompletionPercentage s = Finite 25 0)"
proof (intro conjI impI)
  assume "length (filter completed (Object_values (progress s))) < 2 ^ 48"
  then show "getCompletionPercentage s =
        Finite (spec_round_percent
                  (length (filter completed (Object_values (progress s)))) 16) 0"
    by (simp add: getCompletionPercentage_def percent_of_sixteen)
next
  show "spec_round_percent (length (filter completed (Object_values (progress s)))) 16 \<le> 100
      \<longleftrightarrow> length (filter completed (Object_values (progress s))) \<le> 16"
    by (rule spec_round_percent_range)
next
  assume "length (filter completed (Object_values (progress s))) = 4"
  then show "getCompletionPercentage s = Finite 25 0"
    using percent_of_sixteen [of 4]
    by (simp add: getCompletionPercentage_def spec_round_percent_def)
qed

theorem completion_percentage_formula_witness:
  "getCompletionPercentage four_completed = Finite 25 0 \<and>
   getCompletionPercentage four_completed = Finite (spec_round_percent 4 16) 0"
proof -
  have c: "length (filter completed (Object_values (progress four_completed))) = 4"
    by (simp add: four_completed_def catalog_ids_def Object_values_def sample_entry_def)
  then have "length (filter completed (Object_values (progress four_completed))) < 2 ^ 48"
    by simp
  with c completion_percentage_formula [of four_completed] show ?thesis
    by (simp add: spec_round_percent_def)
qed

subsection \<open>Time spent\<close>

lemma timeSpent_after_update:
  "timeSpent_or_zero (updateProgress_updater hookId updates now p) k =
     (if k = hookId
      then (case upd_timeSpent updates of None \<Rightarrow> timeSpent_or_zero p k | Some v \<Rightarrow> v)
      else timeSpent_or_zero p k)"
  by (simp add: timeSpent_or_zero_def updateProgress_updater_def obj_get_obj_set
      spread_updates_def spread_entry_def entry_defaults_def split: option.splits)

lemma step_grows:
  assumes "time_writes_grow s (op # ops)" and "\<not> is_reset op"
  shows "timeSpent_or_zero (progress s) k \<le> timeSpent_or_zero (progress (apply_operation s op)) k"
  using assms
  by (cases op)
    (auto simp add: updateProgress_progress updateSettings_progress timeSpent_after_update
      split: option.splits)

lemma step_nonneg:
  assumes "time_writes_grow s (op # ops)" and "\<forall>k. 0 \<le> timeSpent_or_zero (progress s) k"
  shows "0 \<le> timeSpent_or_zero (progress (apply_operation s op)) k"
proof (cases op)
  case (UpdateProgress h u t)
  with assms show ?thesis
    by (auto simp add: updateProgress_progress timeSpent_after_update split: option.splits
        intro: order_trans)
next
  case (UpdateSettings u)
  with assms show ?thesis by (simp add: updateSettings_progress)
next
  case ResetProgress
  then show ?thesis by (simp add: resetProgress_fields timeSpent_or_zero_def)
qed

lemma time_writes_grow_tail:
  "time_writes_grow s (op # ops) \<Longrightarrow> time_writes_grow (apply_operation s op) ops"
  by (cases op) auto

lemma run_grows:
  "time_writes_grow s ops \<Longrightarrow> \<forall>op \<in> set ops. \<not> is_reset op \<Longrightarrow>
     timeSpent_or_zero (progress s) k \<le> timeSpent_or_zero (progress (run_operations s ops)) k"
proof (induction ops arbitrary: s)
  case Nil
  show ?case by simp
next
  case (Cons op ops)
  have "timeSpent_or_zero (progress s) k \<le> timeSpent_or_zero (progress (apply_operation s op)) k"
    using Cons.prems by (intro step_grows [of s op ops]) auto
  also have "\<dots> \<le> timeSpent_or_zero (progress (run_operations (apply_operation s op) ops)) k"
    using Cons.prems by (intro Cons.IH time_writes_grow_tail) auto
  finally show ?case by simp
qed

lemma run_nonneg:
  "time_writes_grow s ops \<Longrightarrow> \<forall>k. 0 \<le> timeSpent_or_zero (progress s) k \<Longrightarrow>
     0 \<le> timeSpent_or_zero (progress (run_operations s ops)) k"
proof (induction ops arbitrary: s)
  case Nil
  then show ?case by simp
next
  case (Cons op ops)
  have "\<forall>k. 0 \<le> timeSpent_or_zero (progress (apply_operation s op)) k"
    using Cons.prems step_nonneg [of s op ops] by blast
  with Cons.prems show ?case
    by (simp add: Cons.IH time_writes_grow_tail)
qed

lemma cleanup_writes:
  assumes "selectedHook \<noteq> []"
  shows "timeSpent_or_zero (progress (session_cleanup selectedHook (Some start) captured clock now s))
           selectedHook
         = timeSpent_or_zero captured selectedHook + (clock - start) div 1000"
  using assms
  by (simp add: session_cleanup_def updateProgress_progress timeSpent_after_update
      no_updates_def)

text \<open>
  Claim C7, as stated, fails: \<^verbatim>\<open>updateProgress\<close> stores the \<^verbatim>\<open>timeSpent\<close> it is given.
  Writing 10 and then 3 lowers it without any reset, and writing \<open>- 5\<close> makes it negative.
\<close>

theorem timeSpent_can_decrease_counterexample:
  "timeSpent_or_zero (progress (run_operations (sample_provider True)
       [UpdateProgress ''useState'' (time_update 10) 2000])) ''useState'' = 10 \<and>
   timeSpent_or_zero (progress (run_operations (sample_provider True)
       [UpdateProgress ''useState'' (time_update 10) 2000,
        UpdateProgress ''useState'' (time_update 3) 3000])) ''useState'' = 3 \<and>
   timeSpent_or_zero (progress (run_operations (sample_provider True)
       [UpdateProgress ''useState'' (time_update (- 5)) 2000])) ''useState'' = - 5"
  by (simp add: updateProgress_progress timeSpent_after_update time_update_def no_updates_def)

text \<open>
  Claim C7, amended. Over a sequence of operations in which every \<^verbatim>\<open>timeSpent\<close> written
  is at least the topic's value just before the call (0 without a record), the
  \<^verbatim>\<open>timeSpent\<close> of every topic does not decrease as long as the sequence has no reset,
  and it stays non-negative if it was so at the start. The cleanup of HookLearning
  writes the captured value plus the whole seconds elapsed, which is at least the
  captured value when the clock has not gone back. A reset puts every topic at 0.
\<close>

theorem timeSpent_grows_under_caller_contract:
  "(time_writes_grow s ops \<and> (\<forall>op \<in> set ops. \<not> is_reset op) \<longrightarrow>
      timeSpent_or_zero (progress s) k \<le> timeSpent_or_zero (progress (run_operations s ops)) k) \<and>
   (time_writes_grow s ops \<and> (\<forall>h. 0 \<le> timeSpent_or_zero (progress s) h) \<longrightarrow>
      0 \<le> timeSpent_or_zero (progress (run_operations s ops)) k) \<and>
   (selectedHook \<noteq> [] \<and> start \<le> clock \<longrightarrow>
      timeSpent_or_zero captured selectedHook
        \<le> timeSpent_or_zero
             (progress (session_cleanup selectedHook (Some start) captured clock now s))
             selectedHook) \<and>
   timeSpent_or_zero (progress (resetProgress s)) k = 0"
proof (intro conjI impI)
  assume "time_writes_grow s ops \<and> (\<forall>op \<in> set ops. \<not> is_reset op)"
  then show "timeSpent_or_zero (progress s) k
      \<le> timeSpent_or_zero (progress (run_operations s ops)) k"
    by (simp add: run_grows)
next
  assume "time_writes_grow s ops \<and> (\<forall>h. 0 \<le> timeSpent_or_zero (progress s) h)"
  then show "0 \<le> timeSpent_or_zero (progress (run_operations s ops)) k"
    by (simp add: run_nonneg)
next
  assume a: "selectedHook \<noteq> [] \<and> start \<le> clock"
  then have "0 \<le> (clock - start) div 1000"
    by (simp add: pos_imp_zdiv_nonneg_iff)
  with a show "timeSpent_or_zero captured selectedHook
        \<le> timeSpent_or_zero
             (progress (session_cleanup selectedHook (Some start) captured clock now s))
             selectedHook"
    by (simp add: cleanup_writes)
next
  show "timeSpent_or_zero (progress (resetProgress s)) k = 0"
    by (simp add: resetProgress_fields timeSpent_or_zero_def)
qed

theorem timeSpent_grows_under_caller_contract_witness:
  "timeSpent_or_zero (progress (sample_provider True)) ''useState''
     \<le> timeSpent_or_zero (progress (run_operations (sample_provider True)
          [UpdateProgress ''useState'' (time_update 125) 2000,
           UpdateSettings (no_settings_updates\<lparr>upd_showHints := Some False\<rparr>),
           UpdateProgress ''useState'' (time_update 130) 3000])) ''useState'' \<and>
   0 \<le> timeSpent_or_zero (progress (run_operations (sample_provider True)
          [UpdateProgress ''useState'' (time_update 125) 2000,
           UpdateSettings (no_settings_updates\<lparr>upd_showHints := Some False\<rparr>),
           UpdateProgress ''useState'' (time_update 130) 3000])) ''useState'' \<and>
   timeSpent_or_zero (progress (sample_provider True)) ''useState''
     \<le> timeSpent_or_zero (progress (session_cleanup ''useState'' (Some 1000)
          (progress (sample_provider True)) 6500 6501 (sample_provider True))) ''useState''"
proof -
  let ?ops = "[UpdateProgress ''useState'' (time_update 125) 2000,
           UpdateSettings (no_settings_updates\<lparr>upd_showHints := Some False\<rparr>),
           UpdateProgress ''useState'' (time_update 130) 3000]"
  have t0: "\<And>h. timeSpent_or_zero (progress (sample_provider True)) h
      = (if h = ''useState'' then 120 else 0)"
    by (simp add: sample_provider_def sample_entry_def timeSpent_or_zero_def)
  have grow: "time_writes_grow (sample_provider True) ?ops"
    by (simp add: t0 time_update_def no_updates_def updateProgress_progress
        updateSettings_progress timeSpent_after_update)
  have noreset: "\<forall>op \<in> set ?ops. \<not> is_reset op" by simp
  have nonneg: "\<forall>h. 0 \<le> timeSpent_or_zero (progress (sample_provider True)) h"
    by (simp add: t0)
  have hook: "''useState'' \<noteq> [] \<and> (1000::int) \<le> 6500" by simp
  from timeSpent_grows_under_caller_contract
    [of "sample_provider True" ?ops "''useState''" "''useState''" 1000 6500
        "progress (sample_provider True)" 6501]
    grow noreset nonneg hook
  show ?thesis by blast
qed

section \<open>Verification of the quiz\<close>

subsection \<open>Navigation\<close>

text \<open>
  Claim C5. Quiz navigation saturates, and neither handler has a failing branch:
  \<^verbatim>\<open>previousQuestion\<close> at index 0 returns the state unchanged, it never touches the
  selections and never makes the index negative; \<^verbatim>\<open>nextQuestion\<close> at the last question
  (or past it) sets \<^verbatim>\<open>quizCompleted\<close> and \<^verbatim>\<open>showResults\<close> and leaves the index where it
  is, so an index inside the list never leaves it, and the selections stay as they are.
\<close>

theorem quiz_navigation_saturates:
  "(currentQuestion s = 0 \<longrightarrow> previousQuestion s = s) \<and>
   selectedAnswers (previousQuestion s) = selectedAnswers s \<and>
   (0 \<le> currentQuestion s \<longrightarrow> 0 \<le> currentQuestion (previousQuestion s)) \<and>
   (int (length questions) - 1 \<le> currentQuestion s \<longrightarrow>
      quizCompleted (fst (nextQuestion questions s)) \<and>
      showResults (fst (nextQuestion questions s)) \<and>
      currentQuestion (fst (nextQuestion questions s)) = currentQuestion s) \<and>
   (currentQuestion s \<le> int (length questions) - 1 \<longrightarrow>
      currentQuestion (fst (nextQuestion questions s)) \<le> int (length questions) - 1) \<and>
   selectedAnswers (fst (nextQuestion questions s)) = selectedAnswers s"
  by (simp add: previousQuestion_def nextQuestion_def)

theorem quiz_navigation_saturates_witness:
  "previousQuestion (initial_quiz\<lparr>selectedAnswers := [Some 1]\<rparr>)
     = initial_quiz\<lparr>selectedAnswers := [Some 1]\<rparr> \<and>
   quizCompleted (fst (nextQuestion [sample_question 1, sample_question 2, sample_question 0]
      (initial_quiz\<lparr>currentQuestion := 2\<rparr>))) \<and>
   showResults (fst (nextQuestion [sample_question 1, sample_question 2, sample_question 0]
      (initial_quiz\<lparr>currentQuestion := 2\<rparr>))) \<and>
   currentQuestion (fst (nextQuestion [sample_question 1, sample_question 2, sample_question 0]
      (initial_quiz\<lparr>currentQuestion := 2\<rparr>))) = 2"
proof -
  have a: "currentQuestion (initial_quiz\<lparr>selectedAnswers := [Some 1]\<rparr>) = 0"
    by (simp add: initial_quiz_def)
  have b: "int (length [sample_question 1, sample_question 2, sample_question 0]) - 1
             \<le> currentQuestion (initial_quiz\<lparr>currentQuestion := 2\<rparr>)"
    by simp
  from a quiz_navigation_saturates [of "initial_quiz\<lparr>selectedAnswers := [Some 1]\<rparr>" "[]"]
  have "previousQuestion (initial_quiz\<lparr>selectedAnswers := [Some 1]\<rparr>)
     = initial_quiz\<lparr>selectedAnswers := [Some 1]\<rparr>" by blast
  moreover from b quiz_navigation_saturates [of "initial_quiz\<lparr>currentQuestion := 2\<rparr>"
      "[sample_question 1, sample_question 2, sample_question 0]"]
  have "quizCompleted (fst (nextQuestion [sample_question 1, sample_question 2, sample_question 0]
      (initial_quiz\<lparr>currentQuestion := 2\<rparr>))) \<and>
   showResults (fst (nextQuestion [sample_question 1, sample_question 2, sample_question 0]
      (initial_quiz\<lparr>currentQuestion := 2\<rparr>))) \<and>
   currentQuestion (fst (nextQuestion [sample_question 1, sample_question 2, sample_question 0]
      (initial_quiz\<lparr>currentQuestion := 2\<rparr>))) = currentQuestion (initial_quiz\<lparr>currentQuestion := 2\<rparr>)"
    by blast
  ultimately show ?thesis by simp
qed

subsection \<open>Scoring\<close>

lemma count_correct_from:
  "count_correct qs sel (int j) acc =
     acc + length (filter (\<lambda>i. js_array_get sel (int (j + i)) = Some (correctAnswer (qs ! i)))
                     [0..<length qs])"
proof (induction qs arbitrary: j acc)
  case Nil
  show ?case by simp
next
  case (Cons q qs)
  have "int j + 1 = int (Suc j)" by simp
  then have step: "count_correct (q # qs) sel (int j) acc =
      count_correct qs sel (int (Suc j))
        (if js_array_get sel (int j) = Some (correctAnswer q) then acc + 1 else acc)"
    by (simp only: count_correct.simps)
  have shift: "[0..<length (q # qs)] = 0 # map Suc [0..<length qs]"
    by (simp add: upt_conv_Cons map_Suc_upt del: upt_Suc)
  show ?case
    unfolding step Cons.IH shift
    by (simp add: filter_map comp_def algebra_simps)
qed

text \<open>
  The loop of \<^verbatim>\<open>calculateScore\<close> counts exactly the questions whose selected index is
  the correct one; a question without a selection is never counted.
\<close>

lemma count_correct_spec: "count_correct qs sel 0 0 = spec_correct_count qs sel"
  using count_correct_from [of qs sel 0 0] by (simp add: spec_correct_count_def)

lemma score_of_empty: "calculateScore [] sel = NaN"
  by (simp add: calculateScore_def js_div_def js_mul_def Math_round_def)

text \<open>
  Claim C3, as stated, fails: for the empty question list \<^verbatim>\<open>calculateScore\<close> evaluates
  \<^verbatim>\<open>0 / 0\<close> and returns \<^verbatim>\<open>NaN\<close>, not 0.
\<close>

theorem empty_quiz_score_counterexample:
  "calculateScore [] (selectedAnswers initial_quiz) = NaN \<and>
   calculateScore [] (selectedAnswers initial_quiz) \<noteq> Finite 0 0"
  by (simp add: score_of_empty)

text \<open>
  Claim C3, amended. For a question list of length zero the loop of \<^verbatim>\<open>calculateScore\<close>
  counts nothing, the division is \<^verbatim>\<open>0 / 0\<close>, which raises nothing and gives \<^verbatim>\<open>NaN\<close>, and
  the score is \<^verbatim>\<open>NaN\<close> for every selection array.
\<close>

theorem empty_quiz_score_is_NaN:
  "count_correct [] sel 0 0 = 0 \<and>
   js_div (count_correct [] sel 0 0) (length ([] :: question list)) = NaN \<and>
   calculateScore [] sel = NaN"
  by (simp add: score_of_empty js_div_def)

text \<open>
  For a quiz of three questions, the size of every quiz in \<^verbatim>\<open>quizzes.ts\<close>, the score is
  \<open>round (100 * c / 3)\<close> with \<open>c\<close> the number of right answers.
\<close>

lemma score_of_three_questions:
  assumes "length qs = 3"
  shows "calculateScore qs sel = Finite (spec_round_percent (spec_correct_count qs sel) 3) 0"
proof -
  have "spec_correct_count qs sel \<le> length [0..<length qs]"
    unfolding spec_correct_count_def by (rule length_filter_le)
  then have "spec_correct_count qs sel \<le> 3" using assms by simp
  then show ?thesis
    by (simp add: calculateScore_def count_correct_spec assms percent_of_three)
qed

lemma score_examples:
  "calculateScore three_questions [Some 1, Some 2, Some 1] = Finite 67 0"
  "calculateScore three_questions [Some 1, Some 2, Some 0] = Finite 100 0"
  "calculateScore three_questions [Some 1] = Finite 33 0"
  "calculateScore three_questions [None, Some 2, Some 0] = Finite 67 0"
  by (simp_all add: score_of_three_questions three_questions_def sample_question_def
      spec_correct_count_def js_array_get_def spec_round_percent_def)

lemma count_forty: "count_correct forty_questions twenty_three_right 0 0 = 23"
  unfolding forty_questions_def twenty_three_right_def sample_question_def
  by code_simp

text \<open>
  Claim C4 at a quiz of 40 questions with 23 right answers: the loop counts 23, the
  binary64 value of \<^verbatim>\<open>(23 / 40) * 100\<close> is \<open>8092405580431359 * 2 ^ - 47\<close>, which is
  57.49999999999999 and lies below 57.5, so \<^verbatim>\<open>calculateScore\<close> returns 57, while
  \<open>round (100 * 23 / 40)\<close> is 58.
\<close>

theorem score_rounds_down_at_23_of_40:
  "count_correct forty_questions twenty_three_right 0 0 = 23 \<and>
   length forty_questions = 40 \<and>
   js_mul (js_div 23 40) 100 = Finite 8092405580431359 (- 47) \<and>
   calculateScore forty_questions twenty_three_right = Finite 57 0 \<and>
   spec_round_percent 23 40 = 58"
proof -
  have "js_mul (js_div 23 40) 100 = Finite 8092405580431359 (- 47)"
    by (simp add: js_div_def js_mul_def round_binary64_def Let_def bitlen.simps)
  moreover have "length forty_questions = 40" by (simp add: forty_questions_def)
  ultimately show ?thesis
    by (simp add: calculateScore_def count_forty Math_round_def spec_round_percent_def)
qed

subsection \<open>The completion callback\<close>

text \<open>
  Claim C10. For a non-empty \<^verbatim>\<open>selectedHook\<close>, \<^verbatim>\<open>handleQuizComplete\<close> leaves the topic
  with \<open>completed\<close> equal to \<^verbatim>\<open>score >= 70\<close>, whatever it was before; so a topic that
  was completed and whose quiz ends below 70 is the same record with \<open>completed\<close> set
  back to \<open>False\<close>.
\<close>

theorem quiz_completion_overwrites_completed:
  "selectedHook \<noteq> [] \<longrightarrow>
     (\<exists>r. obj_get (progress (handleQuizComplete selectedHook score now s)) selectedHook = Some r \<and>
        completed r = number_ge score 70) \<and>
     (\<forall>r0. obj_get (progress s) selectedHook = Some r0 \<and> completed r0 \<and>
        \<not> number_ge score 70 \<longrightarrow>
        obj_get (progress (handleQuizComplete selectedHook score now s)) selectedHook
          = Some (r0\<lparr>completed := False\<rparr>))"
  by (auto simp add: handleQuizComplete_def updateProgress_progress updateProgress_updater_def
      obj_get_obj_set spread_updates_def spread_entry_def no_updates_def)

theorem quiz_completion_overwrites_completed_witness:
  "(\<exists>r. obj_get (progress (handleQuizComplete ''useState'' (Finite 67 0) 2000
            (sample_provider True))) ''useState'' = Some r \<and> completed r = False) \<and>
   obj_get (progress (handleQuizComplete ''useState'' (Finite 67 0) 2000
            (sample_provider True))) ''useState'' = Some (sample_entry\<lparr>completed := False\<rparr>)"
proof -
  have ne: "''useState'' \<noteq> []" by simp
  have low: "\<not> number_ge (Finite 67 0) 70" by (simp add: number_ge_def)
  have old: "obj_get (progress (sample_provider True)) ''useState'' = Some sample_entry \<and>
      completed sample_entry"
    by (simp add: sample_provider_def sample_entry_def)
  from quiz_completion_overwrites_completed
    [of "''useState''" "Finite 67 0" 2000 "sample_provider True"] ne low old
  show ?thesis by auto
qed

end
